theory Spec2Isabelle
  imports Complex_Main "HOL-Library.Word"
begin

unbundle bit_operations_syntax

section \<open>Values\<close>

text \<open>
  The header \<^verbatim>\<open>csrc/includes/quantization_utils.h\<close> computes on \<^verbatim>\<open>__half\<close>, \<^verbatim>\<open>float\<close>,
  \<^verbatim>\<open>int32_t\<close> and \<^verbatim>\<open>int8_t\<close>. A floating-point value is a real number, one of the two
  infinities, or NaN. A \<^verbatim>\<open>__half\<close> and a \<^verbatim>\<open>float\<close> share the type, so the widening
  conversion \<^verbatim>\<open>conversion::to<float>(__half)\<close> is the identity. The arithmetic of the
  header is on \<^verbatim>\<open>float\<close>: every sum, product and quotient is rounded to binary32, to
  nearest with ties to even, and overflows to an infinity. The sign of zero and the
  contraction of a product and a sum into one fused operation are not modelled.
\<close>

datatype float = NaN | NegInf | Fin real | PosInf

type_synonym half = float
type_synonym half2 = "half \<times> half"
type_synonym int32 = "32 word"
type_synonym int8 = "8 word"

text \<open>The nearest integer, a tie going to the even one.\<close>

definition nearest_even :: "real \<Rightarrow> int" where
  "nearest_even x =
     (let f = \<lfloor>x\<rfloor>; d = x - real_of_int f
      in if d < 1 / 2 then f else if 1 / 2 < d then f + 1
         else if even f then f else f + 1)"

text \<open>
  Rounding to binary32. The magnitude is counted in units of \<open>2^-149\<close>, the smallest
  subnormal. A magnitude of \<open>b\<close> bits in these units keeps its 24 leading bits: it is
  rounded to a multiple of \<open>2^k\<close> units with \<open>k = b - 24\<close>, or to a whole number of
  units when it has at most 24 bits (the subnormal numbers and the smallest normal
  ones). The largest finite value is \<open>(2^24 - 1) * 2^104\<close>, that is \<open>2^277 - 2^253\<close>
  units; a rounded magnitude of \<open>2^277\<close> units or more is an infinity.
\<close>

fun bit_length :: "nat \<Rightarrow> nat" where
  "bit_length n = (if n = 0 then 0 else Suc (bit_length (n div 2)))"

declare bit_length.simps [simp del]

definition fl32 :: "real \<Rightarrow> float" where
  "fl32 x =
     (let t = \<bar>x\<bar> * 2 ^ 149;
          k = bit_length (nat \<lfloor>t\<rfloor>) - 24;
          m = nearest_even (t / 2 ^ k)
      in if 2 ^ 277 \<le> m * 2 ^ k then (if 0 < x then PosInf else NegInf)
         else Fin (sgn x * (real_of_int (m * 2 ^ k) / 2 ^ 149)))"

fun fneg :: "float \<Rightarrow> float" where
  "fneg NaN = NaN"
| "fneg NegInf = PosInf"
| "fneg (Fin x) = Fin (- x)"
| "fneg PosInf = NegInf"

fun fabs :: "float \<Rightarrow> float" where
  "fabs NaN = NaN"
| "fabs NegInf = PosInf"
| "fabs (Fin x) = Fin \<bar>x\<bar>"
| "fabs PosInf = PosInf"

fun fadd :: "float \<Rightarrow> float \<Rightarrow> float" where
  "fadd (Fin x) (Fin y) = fl32 (x + y)"
| "fadd NaN b = NaN"
| "fadd a NaN = NaN"
| "fadd PosInf NegInf = NaN"
| "fadd NegInf PosInf = NaN"
| "fadd PosInf b = PosInf"
| "fadd a PosInf = PosInf"
| "fadd NegInf b = NegInf"
| "fadd a NegInf = NegInf"

definition fsub :: "float \<Rightarrow> float \<Rightarrow> float" where
  "fsub a b = fadd a (fneg b)"

fun fmul :: "float \<Rightarrow> float \<Rightarrow> float" where
  "fmul (Fin x) (Fin y) = fl32 (x * y)"
| "fmul NaN b = NaN"
| "fmul a NaN = NaN"
| "fmul (Fin x) PosInf = (if x = 0 then NaN else if 0 < x then PosInf else NegInf)"
| "fmul (Fin x) NegInf = (if x = 0 then NaN else if 0 < x then NegInf else PosInf)"
| "fmul PosInf (Fin y) = (if y = 0 then NaN else if 0 < y then PosInf else NegInf)"
| "fmul NegInf (Fin y) = (if y = 0 then NaN else if 0 < y then NegInf else PosInf)"
| "fmul PosInf PosInf = PosInf"
| "fmul NegInf NegInf = PosInf"
| "fmul PosInf NegInf = NegInf"
| "fmul NegInf PosInf = NegInf"

text \<open>Division by a zero divisor takes the zero as \<open>+0\<close>.\<close>

fun fdiv :: "float \<Rightarrow> float \<Rightarrow> float" where
  "fdiv (Fin x) (Fin y) =
     (if y = 0 then (if x = 0 then NaN else if 0 < x then PosInf else NegInf)
      else fl32 (x / y))"
| "fdiv NaN b = NaN"
| "fdiv a NaN = NaN"
| "fdiv (Fin x) PosInf = Fin 0"
| "fdiv (Fin x) NegInf = Fin 0"
| "fdiv PosInf (Fin y) = (if 0 \<le> y then PosInf else NegInf)"
| "fdiv NegInf (Fin y) = (if 0 \<le> y then NegInf else PosInf)"
| "fdiv PosInf b = NaN"
| "fdiv NegInf b = NaN"

text \<open>The comparisons \<^verbatim>\<open>==\<close> and \<^verbatim>\<open><\<close>: false whenever an operand is NaN.\<close>

fun feq :: "float \<Rightarrow> float \<Rightarrow> bool" where
  "feq (Fin x) (Fin y) = (x = y)"
| "feq PosInf PosInf = True"
| "feq NegInf NegInf = True"
| "feq a b = False"

fun flt :: "float \<Rightarrow> float \<Rightarrow> bool" where
  "flt (Fin x) (Fin y) = (x < y)"
| "flt NaN b = False"
| "flt a NaN = False"
| "flt NegInf NegInf = False"
| "flt NegInf b = True"
| "flt a NegInf = False"
| "flt PosInf b = False"
| "flt a PosInf = True"

text \<open>
  Modelled from the spec: \<^verbatim>\<open>reduce::element<rop::Max>\<close> and \<^verbatim>\<open>reduce::element<rop::Min>\<close>
  are declared in \<^verbatim>\<open>reduction_utils.h\<close>, which is not among the source files. The spec
  names them the max and min combination of two values; a NaN operand yields the other
  operand. On \<^verbatim>\<open>__half2\<close> they work on each lane.
\<close>

definition element_Max :: "float \<Rightarrow> float \<Rightarrow> float" where
  "element_Max lhs rhs = (if lhs = NaN then rhs else if rhs = NaN then lhs
                          else if flt lhs rhs then rhs else lhs)"

definition element_Min :: "float \<Rightarrow> float \<Rightarrow> float" where
  "element_Min lhs rhs = (if lhs = NaN then rhs else if rhs = NaN then lhs
                          else if flt rhs lhs then rhs else lhs)"

definition element_Max2 :: "half2 \<Rightarrow> half2 \<Rightarrow> half2" where
  "element_Max2 lhs rhs = (element_Max (fst lhs) (fst rhs), element_Max (snd lhs) (snd rhs))"

definition element_Min2 :: "half2 \<Rightarrow> half2 \<Rightarrow> half2" where
  "element_Min2 lhs rhs = (element_Min (fst lhs) (fst rhs), element_Min (snd lhs) (snd rhs))"

text \<open>The intrinsic \<^verbatim>\<open>__habs2\<close>: the absolute value of each lane.\<close>

definition habs2 :: "half2 \<Rightarrow> half2" where
  "habs2 val = (fabs (fst val), fabs (snd val))"

text \<open>
  Modelled from the spec: \<^verbatim>\<open>reduce::init<rop::Max, __half2>()\<close> and
  \<^verbatim>\<open>reduce::init<rop::Min, __half2>()\<close> (\<^verbatim>\<open>reduction_utils.h\<close>). The comments of the
  \<^verbatim>\<open>GroupStats\<close> constructors give their values: \<open>-inf\<close> for Max, \<open>inf\<close> for Min.
\<close>

definition init_Max2 :: half2 where
  "init_Max2 = (NegInf, NegInf)"

definition init_Min2 :: half2 where
  "init_Min2 = (PosInf, PosInf)"

text \<open>
  Modelled from the spec: \<^verbatim>\<open>conversion::to<float>(int32_t)\<close> is declared in
  \<^verbatim>\<open>conversion_utils.h\<close>, which is not among the source files. The float is the integer
  rounded to binary32; an integer of at most 24 bits is kept as it is.
\<close>

definition int32_to_float :: "int32 \<Rightarrow> float" where
  "int32_to_float n = fl32 (real_of_int (sint n))"

text \<open>The integer \<^verbatim>\<open>min\<close> and \<^verbatim>\<open>max\<close> of two \<^verbatim>\<open>int32_t\<close>: signed comparison.\<close>

definition max_i32 :: "int32 \<Rightarrow> int32 \<Rightarrow> int32" where
  "max_i32 a b = (if sint a < sint b then b else a)"

definition min_i32 :: "int32 \<Rightarrow> int32 \<Rightarrow> int32" where
  "min_i32 a b = (if sint b < sint a then b else a)"

subsection \<open>The conversion from float to int32\<close>

text \<open>
  \<^verbatim>\<open>conversion::to<int32_t>(float)\<close> is declared in \<^verbatim>\<open>conversion_utils.h\<close>, which is not
  among the source files. Every function below that calls it takes it as the parameter
  \<open>to_int32\<close>. What the results need of it is stated by three predicates.
  \<open>rounds_to_int32\<close>: the result never crosses an integer that bounds the argument;
  rounding to nearest, truncation, floor and ceiling all satisfy it, saturating at the
  ends of the \<^verbatim>\<open>int32_t\<close> range. \<open>rounds_to_nearest\<close>: an argument less than one half
  away from an integer is converted to that integer. \<open>saturates_int32\<close>: the infinities
  are converted to the ends of the \<^verbatim>\<open>int32_t\<close> range.
\<close>

definition rounds_to_int32 :: "(float \<Rightarrow> int32) \<Rightarrow> bool" where
  "rounds_to_int32 to_int32 \<longleftrightarrow>
     (\<forall>x n. - (2 ^ 31) \<le> n \<and> n < 2 ^ 31 \<longrightarrow>
        (real_of_int n \<le> x \<longrightarrow> n \<le> sint (to_int32 (Fin x))) \<and>
        (x \<le> real_of_int n \<longrightarrow> sint (to_int32 (Fin x)) \<le> n))"


definition saturates_int32 :: "(float \<Rightarrow> int32) \<Rightarrow> bool" where
  "saturates_int32 to_int32 \<longleftrightarrow>
     sint (to_int32 PosInf) = 2 ^ 31 - 1 \<and> sint (to_int32 NegInf) = - (2 ^ 31)"

definition sat_int32 :: "int \<Rightarrow> int32" where
  "sat_int32 n = word_of_int (max (- (2 ^ 31)) (min (2 ^ 31 - 1) n))"

text \<open>
  Modelled from the spec: two readings of the absent \<^verbatim>\<open>conversion::to<int32_t>(float)\<close>.
  The spec calls the conversion primitive "truncating" (\<open>float2int_rz\<close>, towards zero) and
  writes the derived values with "round" (\<open>float2int_rn\<close>, to nearest, a tie to the even
  integer). Both saturate outside the \<^verbatim>\<open>int32_t\<close> range and send NaN to 0.
\<close>

definition trunc_real :: "real \<Rightarrow> int" where
  "trunc_real x = (if 0 \<le> x then \<lfloor>x\<rfloor> else \<lceil>x\<rceil>)"

fun float2int_rz :: "float \<Rightarrow> int32" where
  "float2int_rz (Fin x) = sat_int32 (trunc_real x)"
| "float2int_rz PosInf = sat_int32 (2 ^ 31)"
| "float2int_rz NegInf = sat_int32 (- (2 ^ 31))"
| "float2int_rz NaN = 0"

fun float2int_rn :: "float \<Rightarrow> int32" where
  "float2int_rn (Fin x) = sat_int32 (nearest_even x)"
| "float2int_rn PosInf = sat_int32 (2 ^ 31)"
| "float2int_rn NegInf = sat_int32 (- (2 ^ 31))"
| "float2int_rn NaN = 0"

section \<open>GroupStats\<close>

text \<open>
  The template \<^verbatim>\<open>GroupStats<qType>\<close> has one specialisation per quantization type, each
  with its own members; the model is one constructor per specialisation. The members
  \<^verbatim>\<open>max\<close> and \<^verbatim>\<open>min\<close> are written by \<^verbatim>\<open>reduce\<close> only: the C++ constructor leaves them
  indeterminate, so the model's constructor takes their content as an argument.
\<close>

datatype Type = Symmetric | IntegerSymmetric | Asymmetric

datatype GroupStats =
    SymStats (cur_max: half2) (max_val: float)
  | IntSymStats (cur_max: half2) (max_val: float)
  | AsymStats (cur_max: half2) (cur_min: half2) (max_val: float) (min_val: float)

fun GroupStats_new :: "Type \<Rightarrow> float \<times> float \<Rightarrow> GroupStats" where
  "GroupStats_new Symmetric indet = SymStats init_Max2 (fst indet)"
| "GroupStats_new IntegerSymmetric indet = IntSymStats init_Max2 (fst indet)"
| "GroupStats_new Asymmetric indet = AsymStats init_Max2 init_Min2 (fst indet) (snd indet)"

fun update :: "GroupStats \<Rightarrow> half2 \<Rightarrow> GroupStats" where
  "update (SymStats cmax mx) val = SymStats (element_Max2 cmax (habs2 val)) mx"
| "update (IntSymStats cmax mx) val = IntSymStats (element_Max2 cmax (habs2 val)) mx"
| "update (AsymStats cmax cmin mx mn) val =
     AsymStats (element_Max2 cmax val) (element_Min2 cmin val) mx mn"

text \<open>
  Modelled from the spec: \<^verbatim>\<open>reduce::block<rop::Max>(tb, warp, max)\<close> and
  \<^verbatim>\<open>reduce::block<rop::Max, rop::Min>(tb, warp, max, min)\<close> (\<^verbatim>\<open>reduction_utils.h\<close>), the
  collective reduction over the thread block. Seen from one thread it combines the
  thread's own partial value with the partial values of the other threads of the block,
  here the list \<open>peers\<close> (for Asymmetric a list of pairs, max first).
\<close>

definition block_Max :: "float list \<Rightarrow> float \<Rightarrow> float" where
  "block_Max peers v = foldl element_Max v peers"

definition block_Min :: "float list \<Rightarrow> float \<Rightarrow> float" where
  "block_Min peers v = foldl element_Min v peers"

fun reduce :: "(float \<times> float) list \<Rightarrow> GroupStats \<Rightarrow> GroupStats" where
  "reduce peers (SymStats cmax mx) =
     (let partial_max = cmax;
          mx = element_Max (fst partial_max) (snd partial_max)
      in SymStats cmax (block_Max (map fst peers) mx))"
| "reduce peers (IntSymStats cmax mx) =
     (let partial_max = cmax;
          mx = element_Max (fst partial_max) (snd partial_max)
      in IntSymStats cmax (block_Max (map fst peers) mx))"
| "reduce peers (AsymStats cmax cmin mx mn) =
     (let partial_max = cmax;
          mx = element_Max (fst partial_max) (snd partial_max);
          partial_min = cmin;
          mn = element_Min (fst partial_min) (snd partial_min)
      in AsymStats cmax cmin (block_Max (map fst peers) mx) (block_Min (map snd peers) mn))"

section \<open>Params\<close>

text \<open>
  \<^verbatim>\<open>Params<qType, numBits>\<close>: one constructor per specialisation. The template argument
  \<^verbatim>\<open>numBits\<close> is an argument of the functions; the header documents the values 8 and 4.
  \<open>SymParams scale\<close> and \<open>AsymParams scale offset\<close> hold floats, \<open>IntSymParams scale\<close>
  holds an \<^verbatim>\<open>int32_t\<close>.
\<close>

datatype Params =
    SymParams float
  | IntSymParams int32
  | AsymParams float float

definition q_min :: "nat \<Rightarrow> int32" where
  "q_min numBits = - (push_bit (numBits - 1) 1)"

definition q_max :: "nat \<Rightarrow> int32" where
  "q_max numBits = push_bit (numBits - 1) 1 - 1"

fun Params_new :: "(float \<Rightarrow> int32) \<Rightarrow> nat \<Rightarrow> GroupStats \<Rightarrow> Params" where
  "Params_new to_int32 numBits (SymStats cmax mx) =
     SymParams (if feq mx (Fin 0) then Fin 1
                else fdiv (Fin (2 ^ numBits)) (fmul (Fin 2) mx))"
| "Params_new to_int32 numBits (IntSymStats cmax mx) =
     IntSymParams (to_int32 (fadd mx (Fin (1 / 2))))"
| "Params_new to_int32 numBits (AsymStats cmax cmin mx mn) =
     (let scale = (if feq mx mn then Fin 1
                   else fdiv (Fin (2 ^ numBits)) (fsub mx mn));
          offset = fsub (fneg (Fin (2 ^ (numBits - 1)))) (fmul mn scale)
      in AsymParams scale offset)"

fun quantize :: "(float \<Rightarrow> int32) \<Rightarrow> nat \<Rightarrow> Params \<Rightarrow> half \<Rightarrow> int8" where
  "quantize to_int32 numBits (SymParams scale) val =
     (let val_f = fmul val scale;
          data_i32 = to_int32 val_f;
          data_i32 = min_i32 (max_i32 data_i32 (q_min numBits)) (q_max numBits)
      in ucast data_i32)"
| "quantize to_int32 numBits (IntSymParams scale) val =
     (let val_f = fmul val (int32_to_float (q_max numBits));
          scaled_val = fdiv val_f (int32_to_float scale);
          data_i32 = to_int32 scaled_val
      in ucast data_i32)"
| "quantize to_int32 numBits (AsymParams scale offset) val =
     (let val_f = fadd (fmul val scale) offset;
          data_i32 = to_int32 val_f;
          data_i32 = min_i32 (max_i32 data_i32 (q_min numBits)) (q_max numBits)
      in ucast data_i32)"

text \<open>
  \<^verbatim>\<open>store\<close> writes into the \<^verbatim>\<open>float*\<close> buffer \<^verbatim>\<open>params\<close> with
  \<^verbatim>\<open>mem_access::store_global<sizeof(float)>\<close>, four bytes at a time. The buffer is a
  function from the index to a four-byte word, which holds a float or, for
  IntegerSymmetric, the bytes of the \<^verbatim>\<open>int32_t\<close> scale.
\<close>

datatype param_word = FloatBits float | Int32Bits int32

fun store :: "Params \<Rightarrow> (int \<Rightarrow> param_word) \<Rightarrow> int \<Rightarrow> (int \<Rightarrow> param_word)" where
  "store (SymParams scale) params group_index =
     (let store_scale = fdiv (Fin 1) scale
      in params(group_index := FloatBits store_scale))"
| "store (IntSymParams scale) params group_index =
     params(group_index := Int32Bits scale)"
| "store (AsymParams scale offset) params group_index =
     (let store_scale = fdiv (Fin 1) scale
      in (params(2 * group_index := FloatBits store_scale))
           (2 * group_index + 1 := FloatBits offset))"

definition get_params ::
  "(float \<Rightarrow> int32) \<Rightarrow> nat \<Rightarrow> (float \<times> float) list \<Rightarrow> GroupStats \<Rightarrow> Params" where
  "get_params to_int32 numBits peers stats =
     (let stats = reduce peers stats;
          params = Params_new to_int32 numBits stats
      in params)"

section \<open>Quantizing a chunk\<close>

definition granularity :: nat where
  "granularity = 16"

definition h_per_load :: nat where
  "h_per_load = granularity div 2"

definition h2_per_load :: nat where
  "h2_per_load = granularity div 4"

text \<open>
  Modelled from the spec: \<^verbatim>\<open>PackedInt4\<close> is declared in \<^verbatim>\<open>quantization.h\<close>, which is not
  among the source files. \<^verbatim>\<open>_chunk\<close> initialises it with the code of the higher-index
  element first and the code of the lower-index element second, and stores its single
  byte. The spec puts the higher-index element in the high nibble: the first member is
  the 4-bit field \<open>high\<close>, bits 4 to 7 of the byte, the second is the 4-bit field \<open>low\<close>,
  bits 0 to 3. A member keeps the four low bits of the \<^verbatim>\<open>int8_t\<close> it is initialised with.
\<close>

record PackedInt4 =
  high :: "4 word"
  low :: "4 word"

definition PackedInt4_new :: "int8 \<Rightarrow> int8 \<Rightarrow> PackedInt4" where
  "PackedInt4_new first second = \<lparr>high = ucast first, low = ucast second\<rparr>"

definition PackedInt4_byte :: "PackedInt4 \<Rightarrow> int8" where
  "PackedInt4_byte p = push_bit 4 (ucast (high p)) OR ucast (low p)"

text \<open>
  \<^verbatim>\<open>_chunk\<close> on \<^verbatim>\<open>const __half*\<close>. The arrays are functions from the index. The loop
  advances \<open>i\<close> by \<^verbatim>\<open>num_elems_packed = 8 / numBits\<close>; with \<open>numBits\<close> above 8 that is 0
  and the C++ loop does not advance, so \<open>chunk_half\<close> returns \<open>None\<close> there and the loop
  function is only called with a positive step.
\<close>

function chunk_loop ::
  "(float \<Rightarrow> int32) \<Rightarrow> nat \<Rightarrow> Params \<Rightarrow> (nat \<Rightarrow> half) \<Rightarrow> nat \<Rightarrow> nat \<Rightarrow> (nat \<Rightarrow> int8)
     \<Rightarrow> (nat \<Rightarrow> int8)" where
  "chunk_loop to_int32 numBits q_params data i oi local_output =
     (let elems = 16 div 2;
          num_elems_packed = 8 div numBits
      in if i < elems \<and> 0 < num_elems_packed then
           chunk_loop to_int32 numBits q_params data (i + num_elems_packed) (oi + 1)
             (if num_elems_packed = 1 then
                local_output(i := quantize to_int32 numBits q_params (data i))
              else if num_elems_packed = 2 then
                (let data_i8_1 = quantize to_int32 numBits q_params (data i);
                     data_i8_2 = quantize to_int32 numBits q_params (data (i + 1));
                     data_i8 = PackedInt4_new data_i8_2 data_i8_1
                 in local_output(oi := PackedInt4_byte data_i8))
              else local_output)
         else local_output)"
  by pat_completeness auto
termination
  by (relation "measure (\<lambda>(to_int32, numBits, q_params, data, i, oi, local_output). 8 - i)") auto

declare chunk_loop.simps [simp del]

definition chunk_half ::
  "(float \<Rightarrow> int32) \<Rightarrow> nat \<Rightarrow> Params \<Rightarrow> (nat \<Rightarrow> half) \<Rightarrow> (nat \<Rightarrow> int8)
     \<Rightarrow> (nat \<Rightarrow> int8) option" where
  "chunk_half to_int32 numBits q_params data local_output =
     (if 8 div numBits = 0 then None
      else Some (chunk_loop to_int32 numBits q_params data 0 0 local_output))"

text \<open>
  \<^verbatim>\<open>_chunk\<close> on \<^verbatim>\<open>const __half2*\<close> reads the same memory as halves: lane \<open>x\<close> of a
  \<^verbatim>\<open>__half2\<close> is the half at the even index, lane \<open>y\<close> the one after it.
\<close>

definition reinterpret_half :: "(nat \<Rightarrow> half2) \<Rightarrow> nat \<Rightarrow> half" where
  "reinterpret_half data j = (if even j then fst (data (j div 2)) else snd (data (j div 2)))"

definition chunk_half2 ::
  "(float \<Rightarrow> int32) \<Rightarrow> nat \<Rightarrow> Params \<Rightarrow> (nat \<Rightarrow> half2) \<Rightarrow> (nat \<Rightarrow> int8)
     \<Rightarrow> (nat \<Rightarrow> int8) option" where
  "chunk_half2 to_int32 numBits q_params data local_output =
     (let data_cast = reinterpret_half data
      in chunk_half to_int32 numBits q_params data_cast local_output)"

section \<open>The loops over the local array\<close>

function serial_reduce_loop :: "nat \<Rightarrow> (nat \<Rightarrow> half2) \<Rightarrow> nat \<Rightarrow> GroupStats \<Rightarrow> GroupStats" where
  "serial_reduce_loop numChunks local_buffer i stats =
     (if i < numChunks * h2_per_load then
        serial_reduce_loop numChunks local_buffer (i + 1) (update stats (local_buffer i))
      else stats)"
  by pat_completeness auto
termination
  by (relation "measure (\<lambda>(numChunks, local_buffer, i, stats). numChunks * h2_per_load - i)") auto

declare serial_reduce_loop.simps [simp del]

definition local_serial_reduce ::
  "Type \<Rightarrow> float \<times> float \<Rightarrow> nat \<Rightarrow> (nat \<Rightarrow> half2) \<Rightarrow> GroupStats" where
  "local_serial_reduce qType indet numChunks local_buffer =
     (let stats = GroupStats_new qType indet
      in serial_reduce_loop numChunks local_buffer 0 stats)"

text \<open>
  The thread block as one thread sees it: \<^verbatim>\<open>tb.group_index().x\<close>,
  \<^verbatim>\<open>tb.thread_index().x\<close> and \<^verbatim>\<open>tb.size()\<close>. Index arithmetic is on unbounded integers:
  the 32-bit wrap-around of the C++ \<^verbatim>\<open>int\<close> is not modelled. The division of the
  \<^verbatim>\<open>int\<close> offset truncates towards zero.
\<close>

record thread_block =
  tb_group_index :: nat
  tb_thread_index :: nat
  tb_size :: nat

definition c_div :: "int \<Rightarrow> int \<Rightarrow> int" where
  "c_div a b = sgn a * sgn b * (\<bar>a\<bar> div \<bar>b\<bar>)"

text \<open>
  Modelled from the spec: \<^verbatim>\<open>mem_access::store_global<N>(dst, src)\<close> is declared in
  \<^verbatim>\<open>memory_access_utils.h\<close>, which is not among the source files: a fixed-width store
  of the \<open>N\<close> bytes at \<open>src\<close> to \<open>dst\<close>. Here \<open>dst\<close> is an index into the output bytes.
\<close>

definition store_global :: "nat \<Rightarrow> (int \<Rightarrow> int8) \<Rightarrow> int \<Rightarrow> (nat \<Rightarrow> int8) \<Rightarrow> (int \<Rightarrow> int8)" where
  "store_global n mem dst src =
     (\<lambda>k. if dst \<le> k \<and> k < dst + int n then src (nat (k - dst)) else mem k)"

text \<open>
  The packing loop of \<^verbatim>\<open>local_array\<close> with given parameters. Its state is the local
  array \<^verbatim>\<open>local_output\<close>, declared before the loop and not initialised, and the output
  bytes. With \<open>numBits\<close> above 8, \<^verbatim>\<open>num_ele_int8\<close> is 0: the constant
  \<^verbatim>\<open>num_int8_out\<close> divides by it and \<^verbatim>\<open>_chunk\<close> would not return, so the functions return
  \<open>None\<close> there.
\<close>

function local_array_loop ::
  "(float \<Rightarrow> int32) \<Rightarrow> nat \<Rightarrow> nat \<Rightarrow> (nat \<Rightarrow> half2) \<Rightarrow> int \<Rightarrow> Params \<Rightarrow> int \<Rightarrow> int \<Rightarrow> int
     \<Rightarrow> nat \<Rightarrow> (nat \<Rightarrow> int8) \<times> (int \<Rightarrow> int8) \<Rightarrow> ((nat \<Rightarrow> int8) \<times> (int \<Rightarrow> int8)) option" where
  "local_array_loop to_int32 numBits numChunks local_buffer elems_per_group q_params
       elem_offset base_offset stride i st =
     (let num_ele_int8 = 8 div numBits;
          num_int8_out = h_per_load div num_ele_int8
      in if i < numChunks then
           (if elem_offset + int i * stride * int num_ele_int8 < elems_per_group then
              (case chunk_half2 to_int32 numBits q_params
                      (\<lambda>j. local_buffer (i * h2_per_load + j)) (fst st) of
                 None \<Rightarrow> None
               | Some local_output \<Rightarrow>
                   local_array_loop to_int32 numBits numChunks local_buffer elems_per_group
                     q_params elem_offset base_offset stride (i + 1)
                     (local_output,
                      store_global num_int8_out (snd st) (base_offset + int i * stride)
                        local_output))
            else
              local_array_loop to_int32 numBits numChunks local_buffer elems_per_group
                q_params elem_offset base_offset stride (i + 1) st)
         else Some st)"
  by pat_completeness auto
termination
  by (relation "measure (\<lambda>(to_int32, numBits, numChunks, local_buffer, elems_per_group,
        q_params, elem_offset, base_offset, stride, i, st). numChunks - i)") auto

declare local_array_loop.simps [simp del]

definition local_array_params ::
  "(float \<Rightarrow> int32) \<Rightarrow> nat \<Rightarrow> nat \<Rightarrow> thread_block \<Rightarrow> (nat \<Rightarrow> int8) \<Rightarrow> (nat \<Rightarrow> half2)
     \<Rightarrow> (int \<Rightarrow> param_word) \<Rightarrow> (int \<Rightarrow> int8) \<Rightarrow> int \<Rightarrow> Params
     \<Rightarrow> ((int \<Rightarrow> param_word) \<times> (int \<Rightarrow> int8)) option" where
  "local_array_params to_int32 numBits numChunks tb indet_output local_buffer global_params
       output_data elems_per_group q_params =
     (let num_ele_int8 = 8 div numBits;
          block_offset = int (tb_group_index tb) * elems_per_group;
          elem_offset = int (tb_thread_index tb * h_per_load);
          base_offset = c_div (block_offset + elem_offset) (int num_ele_int8);
          stride = int (tb_size tb * h_per_load div num_ele_int8);
          local_output = indet_output;
          global_params = (if tb_thread_index tb = 0
                           then store q_params global_params (int (tb_group_index tb))
                           else global_params)
      in if num_ele_int8 = 0 then None
         else map_option (\<lambda>st. (global_params, snd st))
                (local_array_loop to_int32 numBits numChunks local_buffer elems_per_group
                   q_params elem_offset base_offset stride 0 (local_output, output_data)))"

text \<open>
  \<^verbatim>\<open>local_array\<close> computing the parameters. \<open>peers\<close> are the partial statistics of the
  other threads of the block, \<open>indet\<close> and \<open>indet_output\<close> the indeterminate contents of
  the uninitialised members and of the uninitialised local array.
\<close>

definition local_array ::
  "(float \<Rightarrow> int32) \<Rightarrow> Type \<Rightarrow> nat \<Rightarrow> nat \<Rightarrow> thread_block \<Rightarrow> (float \<times> float) list
     \<Rightarrow> float \<times> float \<Rightarrow> (nat \<Rightarrow> int8) \<Rightarrow> (nat \<Rightarrow> half2)
     \<Rightarrow> (int \<Rightarrow> param_word) \<Rightarrow> (int \<Rightarrow> int8) \<Rightarrow> int
     \<Rightarrow> ((int \<Rightarrow> param_word) \<times> (int \<Rightarrow> int8)) option" where
  "local_array to_int32 qType numBits numChunks tb peers indet indet_output local_buffer
       global_params output_data elems_per_group =
     (let group_stats = local_serial_reduce qType indet numChunks local_buffer;
          params = get_params to_int32 numBits peers group_stats
      in local_array_params to_int32 numBits numChunks tb indet_output local_buffer
           global_params output_data elems_per_group params)"

section \<open>Notions used in the statements\<close>

text \<open>The two nibbles of a byte: bits 0 to 3 and bits 4 to 7.\<close>

definition low_nibble :: "int8 \<Rightarrow> 4 word" where
  "low_nibble b = ucast b"

definition high_nibble :: "int8 \<Rightarrow> 4 word" where
  "high_nibble b = ucast (drop_bit 4 b)"





text \<open>
  The compute-parameters path as the specification words it: a serial scan over the
  chunks in index order, each chunk \<open>c\<close> being the \<^verbatim>\<open>h2_per_load\<close> samples from index
  \<open>c * h2_per_load\<close>, folded into the statistics with \<open>update\<close>; then one \<open>reduce\<close>, one
  construction of the parameters, and the packing pass with these parameters.
\<close>

definition chunk_samples :: "(nat \<Rightarrow> half2) \<Rightarrow> nat \<Rightarrow> half2 list" where
  "chunk_samples local_buffer c = map local_buffer [c * h2_per_load ..< (c + 1) * h2_per_load]"

definition spec_scan :: "Type \<Rightarrow> float \<times> float \<Rightarrow> nat \<Rightarrow> (nat \<Rightarrow> half2) \<Rightarrow> GroupStats" where
  "spec_scan qType indet numChunks local_buffer =
     foldl (\<lambda>stats c. foldl update stats (chunk_samples local_buffer c))
       (GroupStats_new qType indet) [0 ..< numChunks]"

definition spec_local_array ::
  "(float \<Rightarrow> int32) \<Rightarrow> Type \<Rightarrow> nat \<Rightarrow> nat \<Rightarrow> thread_block \<Rightarrow> (float \<times> float) list
     \<Rightarrow> float \<times> float \<Rightarrow> (nat \<Rightarrow> int8) \<Rightarrow> (nat \<Rightarrow> half2)
     \<Rightarrow> (int \<Rightarrow> param_word) \<Rightarrow> (int \<Rightarrow> int8) \<Rightarrow> int
     \<Rightarrow> ((int \<Rightarrow> param_word) \<times> (int \<Rightarrow> int8)) option" where
  "spec_local_array to_int32 qType numBits numChunks tb peers indet indet_output local_buffer
       global_params output_data elems_per_group =
     local_array_params to_int32 numBits numChunks tb indet_output local_buffer
       global_params output_data elems_per_group
       (Params_new to_int32 numBits
          (reduce peers (spec_scan qType indet numChunks local_buffer)))"

text \<open>
  The scenarios of the specification run on groups shorter than a chunk; the scan reads
  whole chunks, so the groups are followed by zeros up to the chunk width.
\<close>

definition scenario_symmetric :: "nat \<Rightarrow> half2" where
  "scenario_symmetric i =
     (if i = 0 then (Fin 1, Fin (- 2)) else if i = 1 then (Fin (1 / 2), Fin (- (1 / 4)))
      else (Fin 0, Fin 0))"

definition scenario_asymmetric :: "nat \<Rightarrow> half2" where
  "scenario_asymmetric i = (if i = 0 then (Fin 0, Fin 4) else (Fin 0, Fin 0))"

section \<open>Rounding to binary32\<close>

lemma bit_length_0 [simp]: "bit_length 0 = 0"
  by (simp add: bit_length.simps)

lemma bit_length_numeral [simp]:
  "bit_length (numeral k) = Suc (bit_length (numeral k div 2))"
  by (subst bit_length.simps) simp

lemma bit_length_1 [simp]: "bit_length (Suc 0) = Suc 0"
  by (simp add: bit_length.simps)

lemma bit_length_less: "n < 2 ^ w \<Longrightarrow> bit_length n \<le> w"
proof (induction n arbitrary: w rule: bit_length.induct)
  case (1 n)
  show ?case
  proof (cases "n = 0")
    case True
    then show ?thesis by simp
  next
    case False
    then obtain v where w: "w = Suc v" using "1.prems" by (cases w) auto
    then have "n div 2 < 2 ^ v" using "1.prems" by auto
    then have "bit_length (n div 2) \<le> v" using "1.IH" False by blast
    then show ?thesis using False w by (subst bit_length.simps) simp
  qed
qed

lemma bit_length_lower: "0 < n \<Longrightarrow> 2 ^ (bit_length n - 1) \<le> n"
proof (induction n rule: bit_length.induct)
  case (1 n)
  show ?case
  proof (cases "n div 2 = 0")
    case True
    then have "bit_length n = 1" using "1.prems"
      by (subst bit_length.simps) simp
    then show ?thesis using "1.prems" by simp
  next
    case False
    then have "2 ^ (bit_length (n div 2) - 1) \<le> n div 2" using "1.IH" "1.prems" by simp
    moreover have "0 < bit_length (n div 2)" using False by (subst bit_length.simps) simp
    moreover have "bit_length n = Suc (bit_length (n div 2))" using "1.prems"
      by (subst bit_length.simps) simp
    ultimately have "2 ^ (bit_length n - 1) \<le> 2 * (n div 2)"
      by (cases "bit_length (n div 2)") simp_all
    then show ?thesis by linarith
  qed
qed

lemma nearest_even_int [simp]: "nearest_even (real_of_int z) = z"
  by (simp add: nearest_even_def)

lemma nearest_even_nat [simp]: "nearest_even (real n) = int n"
  using nearest_even_int [of "int n"] by simp



lemma fl32_exact:
  assumes m: "\<bar>m\<bar> < 2 ^ 24" and k: "k \<le> 253"
    and x: "x = real_of_int m * 2 ^ k / 2 ^ 149"
  shows "fl32 x = Fin x"
proof -
  define N where "N = nat \<bar>m\<bar> * 2 ^ k"
  have t: "\<bar>x\<bar> * 2 ^ 149 = real N"
    by (simp add: x N_def abs_mult)
  define K where "K = bit_length N - 24"
  have "nat \<bar>m\<bar> < 2 ^ 24" using m by (simp add: nat_less_iff)
  then have "N < 2 ^ 24 * 2 ^ k" unfolding N_def by simp
  then have lt: "N < 2 ^ (24 + k)" by (simp add: power_add)
  then have "bit_length N \<le> 24 + k" by (rule bit_length_less)
  then have Kk: "K \<le> k" by (simp add: K_def)
  define M where "M = nat \<bar>m\<bar> * 2 ^ (k - K)"
  have NM: "N = M * 2 ^ K"
    using Kk by (simp add: N_def M_def flip: power_add)
  then have q: "real N / 2 ^ K = real M" by simp
  have "(2::nat) ^ (24 + k) \<le> 2 ^ 277" using k by (intro power_increasing) auto
  then have "N < 2 ^ 277" using lt by linarith
  then have no: "\<not> (2::int) ^ 277 \<le> int M * 2 ^ K"
    using NM by (metis of_nat_less_iff not_le of_nat_mult of_nat_numeral of_nat_power)
  have "sgn x * (real_of_int (int M * 2 ^ K) / 2 ^ 149) = sgn x * \<bar>x\<bar>"
    using t NM by simp
  also have "\<dots> = x" by (simp add: sgn_mult_abs)
  finally have r: "sgn x * (real_of_int (int M * 2 ^ K) / 2 ^ 149) = x" .
  show ?thesis
    unfolding fl32_def Let_def t using no r
    by (simp add: K_def [symmetric] q)
qed

lemma fl32_int: "\<bar>n\<bar> < 2 ^ 24 \<Longrightarrow> fl32 (real_of_int n) = Fin (real_of_int n)"
  by (rule fl32_exact [of n 149]) simp_all

lemma fl32_dyadic:
  assumes "\<bar>n\<bar> < 2 ^ 24" and "j \<le> 149"
  shows "fl32 (real_of_int n / 2 ^ j) = Fin (real_of_int n / 2 ^ j)"
proof (rule fl32_exact [of n "149 - j"])
  have "(2::real) ^ 149 = 2 ^ (149 - j) * 2 ^ j"
    using assms(2) by (simp flip: power_add)
  then show "real_of_int n / 2 ^ j = real_of_int n * 2 ^ (149 - j) / 2 ^ 149"
    by (simp add: field_simps)
qed (use assms in simp_all)


text \<open>Values that binary32 holds exactly.\<close>

lemma fl32_0 [simp]: "fl32 0 = Fin 0"
  using fl32_int [of 0] by simp

lemma fl32_1 [simp]: "fl32 1 = Fin 1"
  using fl32_int [of 1] by simp

lemma fl32_numeral [simp]:
  "(numeral w :: int) < 2 ^ 24 \<Longrightarrow> fl32 (numeral w) = Fin (numeral w)"
  using fl32_int [of "numeral w"] by simp

lemma fl32_neg_numeral [simp]:
  "(numeral w :: int) < 2 ^ 24 \<Longrightarrow> fl32 (- numeral w) = Fin (- numeral w)"
  using fl32_int [of "- numeral w"] by simp

lemma fl32_fraction [simp]:
  "fl32 (1 / 2) = Fin (1 / 2)"
  "fl32 (1 / 4) = Fin (1 / 4)"
  "fl32 (1 / 64) = Fin (1 / 64)"
  "(numeral w :: int) < 2 ^ 24 \<Longrightarrow> fl32 (numeral w / 2) = Fin (numeral w / 2)"
  "(numeral w :: int) < 2 ^ 24 \<Longrightarrow> fl32 (numeral w / 4) = Fin (numeral w / 4)"
  using fl32_dyadic [of 1 1] fl32_dyadic [of 1 2] fl32_dyadic [of 1 6]
    fl32_dyadic [of "numeral w" 1] fl32_dyadic [of "numeral w" 2]
  by simp_all

section \<open>Integer codes\<close>

lemma sint_ucast_small:
  assumes "- 128 \<le> sint (w :: int32)" "sint w \<le> 127"
  shows "sint (ucast w :: int8) = sint w"
proof -
  have "sint (ucast w :: int8) = signed_take_bit 7 (uint w)"
    by (simp add: signed_ucast_eq)
  also have "\<dots> = signed_take_bit 7 (sint w)"
    by (simp add: sint_uint signed_take_bit_eq_iff_take_bit_eq take_bit_signed_take_bit)
  also have "\<dots> = sint w"
    using assms by (simp add: signed_take_bit_int_eq_self)
  finally show ?thesis .
qed

lemma q_min_word_of_int: "q_min numBits = word_of_int (- (2 ^ (numBits - 1)))"
  by (simp add: q_min_def push_bit_eq_mult)

lemma q_max_word_of_int: "q_max numBits = word_of_int (2 ^ (numBits - 1) - 1)"
  by (simp add: q_max_def push_bit_eq_mult)

lemma sint_q_min:
  assumes "numBits \<le> 32"
  shows "sint (q_min numBits) = - (2 ^ (numBits - 1))"
proof -
  have "(2::int) ^ (numBits - 1) \<le> 2 ^ 31"
    using assms by (intro power_increasing) auto
  moreover have "(0::int) < 2 ^ (numBits - 1)" by simp
  ultimately have "signed_take_bit 31 (- ((2::int) ^ (numBits - 1))) = - (2 ^ (numBits - 1))"
    by (intro signed_take_bit_int_eq_self) linarith+
  then show ?thesis
    unfolding q_min_word_of_int sint_sbintrunc' by simp
qed

lemma sint_q_max:
  assumes "numBits \<le> 32"
  shows "sint (q_max numBits) = 2 ^ (numBits - 1) - 1"
proof -
  have "(2::int) ^ (numBits - 1) \<le> 2 ^ 31"
    using assms by (intro power_increasing) auto
  moreover have "(0::int) < 2 ^ (numBits - 1)" by simp
  ultimately have "signed_take_bit 31 ((2::int) ^ (numBits - 1) - 1) = 2 ^ (numBits - 1) - 1"
    by (intro signed_take_bit_int_eq_self) linarith+
  then show ?thesis
    unfolding q_max_word_of_int sint_sbintrunc' by simp
qed

lemma pow_le_128: "numBits \<le> 8 \<Longrightarrow> (2::int) ^ (numBits - 1) \<le> 128"
  using power_increasing [of "numBits - 1" 7 "2::int"] by simp

lemma sint_clamp_gen:
  assumes "sint lo \<le> sint hi"
  shows "sint (min_i32 (max_i32 d lo) hi) =
         (if sint d < sint lo then sint lo else if sint hi < sint d then sint hi else sint d)"
  using assms by (auto simp: min_i32_def max_i32_def)

lemma code_range:
  assumes "numBits \<le> 8"
  obtains P :: int where "P = 2 ^ (numBits - 1)" "0 < P" "P \<le> 128"
    "sint (q_min numBits) = - P" "sint (q_max numBits) = P - 1"
proof -
  have "(2::int) ^ (numBits - 1) \<le> 128" using assms by (rule pow_le_128)
  moreover have "(0::int) < 2 ^ (numBits - 1)" by simp
  moreover have "numBits \<le> 32" using assms by simp
  ultimately show ?thesis
    using that [of "2 ^ (numBits - 1)"] by (simp add: sint_q_min sint_q_max)
qed

lemma sint_cast_clamp:
  assumes "numBits \<le> 8"
  shows "sint (ucast (min_i32 (max_i32 d (q_min numBits)) (q_max numBits)) :: int8) =
         (if sint d < sint (q_min numBits) then sint (q_min numBits)
          else if sint (q_max numBits) < sint d then sint (q_max numBits) else sint d)"
proof -
  let ?c = "min_i32 (max_i32 d (q_min numBits)) (q_max numBits)"
  obtain P :: int where P: "0 < P" "P \<le> 128"
    "sint (q_min numBits) = - P" "sint (q_max numBits) = P - 1"
    using assms by (rule code_range)
  have le: "sint (q_min numBits) \<le> sint (q_max numBits)" using P by linarith
  have c: "sint ?c = (if sint d < sint (q_min numBits) then sint (q_min numBits)
          else if sint (q_max numBits) < sint d then sint (q_max numBits) else sint d)"
    using le by (rule sint_clamp_gen)
  have "- 128 \<le> sint ?c" "sint ?c \<le> 127"
    unfolding c using P by (auto split: if_splits)
  then have "sint (ucast ?c :: int8) = sint ?c" by (rule sint_ucast_small)
  then show ?thesis by (simp only: c)
qed

lemma rounds_lower:
  "rounds_to_int32 cvt \<Longrightarrow> - (2 ^ 31) \<le> n \<Longrightarrow> n < 2 ^ 31 \<Longrightarrow> real_of_int n \<le> x
     \<Longrightarrow> n \<le> sint (cvt (Fin x))"
  unfolding rounds_to_int32_def by blast

lemma rounds_upper:
  "rounds_to_int32 cvt \<Longrightarrow> - (2 ^ 31) \<le> n \<Longrightarrow> n < 2 ^ 31 \<Longrightarrow> x \<le> real_of_int n
     \<Longrightarrow> sint (cvt (Fin x)) \<le> n"
  unfolding rounds_to_int32_def by blast

lemma rounds_exact:
  "rounds_to_int32 cvt \<Longrightarrow> - (2 ^ 31) \<le> n \<Longrightarrow> n < 2 ^ 31
     \<Longrightarrow> sint (cvt (Fin (real_of_int n))) = n"
  using rounds_lower [of cvt n "real_of_int n"] rounds_upper [of cvt n "real_of_int n"] by simp

lemma clamp_above:
  assumes r: "rounds_to_int32 cvt" and nb: "numBits \<le> 8" and x: "2 ^ (numBits - 1) - 1 < x"
  shows "sint (ucast (min_i32 (max_i32 (cvt (Fin x)) (q_min numBits)) (q_max numBits)) :: int8) = 2 ^ (numBits - 1) - 1"
proof -
  obtain P :: int where P: "P = 2 ^ (numBits - 1)" "0 < P" "P \<le> 128"
    "sint (q_min numBits) = - P" "sint (q_max numBits) = P - 1"
    using nb by (rule code_range)
  have "real_of_int (P - 1) \<le> x" using x P(1) by simp
  moreover have "- (2 ^ 31) \<le> P - 1" "P - 1 < 2 ^ 31" using P(2,3) by simp_all
  ultimately have "P - 1 \<le> sint (cvt (Fin x))"
    using r by (intro rounds_lower)
  then have "sint (ucast (min_i32 (max_i32 (cvt (Fin x)) (q_min numBits)) (q_max numBits)) :: int8) = P - 1"
    using P(2-) by (simp add: sint_cast_clamp [OF nb])
  then show ?thesis using P(1) by simp
qed


lemma clamp_exact:
  assumes r: "rounds_to_int32 cvt" and nb: "numBits \<le> 8"
    and lo: "- (2 ^ (numBits - 1)) \<le> n" and hi: "n \<le> 2 ^ (numBits - 1) - 1"
  shows "sint (ucast (min_i32 (max_i32 (cvt (Fin (real_of_int n))) (q_min numBits)) (q_max numBits)) :: int8) = n"
proof -
  obtain P :: int where P: "P = 2 ^ (numBits - 1)" "0 < P" "P \<le> 128"
    "sint (q_min numBits) = - P" "sint (q_max numBits) = P - 1"
    using nb by (rule code_range)
  have n: "- P \<le> n" "n \<le> P - 1" using lo hi P(1) by simp_all
  then have "- (2 ^ 31) \<le> n" "n < 2 ^ 31" using P(2,3) by simp_all
  then have "sint (cvt (Fin (real_of_int n))) = n"
    using r by (intro rounds_exact)
  then show ?thesis
    using P(2-) n by (simp add: sint_cast_clamp [OF nb])
qed

lemma sint_sat_int32: "sint (sat_int32 k) = max (- (2 ^ 31)) (min (2 ^ 31 - 1) k)"
proof -
  let ?m = "max (- (2 ^ 31)) (min (2 ^ 31 - 1) k) :: int"
  have "- (2 ^ 31) \<le> ?m" "?m < 2 ^ 31" by simp_all
  then have "signed_take_bit 31 ?m = ?m"
    by (intro signed_take_bit_int_eq_self) simp_all
  then show ?thesis
    unfolding sat_int32_def sint_sbintrunc' by simp
qed

lemma nearest_even_bounds: "\<lfloor>x\<rfloor> \<le> nearest_even x \<and> nearest_even x \<le> \<lceil>x\<rceil>"
proof (cases "x = real_of_int \<lfloor>x\<rfloor>")
  case True
  then have "x - real_of_int \<lfloor>x\<rfloor> = 0" by simp
  then have "nearest_even x = \<lfloor>x\<rfloor>" by (simp add: nearest_even_def Let_def)
  then show ?thesis by (simp add: floor_le_ceiling)
next
  case False
  then have "\<lceil>x\<rceil> = \<lfloor>x\<rfloor> + 1" by (simp add: ceiling_altdef)
  then show ?thesis by (simp add: nearest_even_def Let_def)
qed

lemma trunc_real_bounds: "\<lfloor>x\<rfloor> \<le> trunc_real x \<and> trunc_real x \<le> \<lceil>x\<rceil>"
  by (simp add: trunc_real_def floor_le_ceiling)

lemma rounds_between:
  assumes "\<And>x. \<lfloor>x\<rfloor> \<le> r x \<and> r x \<le> \<lceil>x\<rceil>"
    and "\<And>x. cvt (Fin x) = sat_int32 (r x)"
  shows "rounds_to_int32 cvt"
  unfolding rounds_to_int32_def
proof (intro allI impI conjI)
  fix x :: real and n :: int
  assume n: "- (2 ^ 31) \<le> n \<and> n < 2 ^ 31" and "real_of_int n \<le> x"
  then have "n \<le> \<lfloor>x\<rfloor>" by (simp add: le_floor_iff)
  then have "n \<le> r x" using assms(1) [of x] by linarith
  then show "n \<le> sint (cvt (Fin x))"
    using n by (simp add: assms(2) sint_sat_int32)
next
  fix x :: real and n :: int
  assume n: "- (2 ^ 31) \<le> n \<and> n < 2 ^ 31" and "x \<le> real_of_int n"
  then have "\<lceil>x\<rceil> \<le> n" by (simp add: ceiling_le_iff)
  then have "r x \<le> n" using assms(1) [of x] by linarith
  then show "sint (cvt (Fin x)) \<le> n"
    using n by (simp add: assms(2) sint_sat_int32)
qed

lemma rounds_float2int_rn: "rounds_to_int32 float2int_rn"
  by (rule rounds_between [of nearest_even]) (simp_all add: nearest_even_bounds)

lemma rounds_float2int_rz: "rounds_to_int32 float2int_rz"
  by (rule rounds_between [of trunc_real]) (simp_all add: trunc_real_bounds)



lemma saturates_float2int_rz: "saturates_int32 float2int_rz"
  by (simp add: saturates_int32_def sint_sat_int32)







lemma scast_ucast_nibble:
  assumes "- 8 \<le> sint (c :: int8)" "sint c \<le> 7"
  shows "(scast (ucast c :: 4 word) :: int8) = c"
proof (rule signed_word_eqI)
  have "sint (scast (ucast c :: 4 word) :: int8) = sint (ucast c :: 4 word)"
    by (rule sint_up_scast) (simp add: is_up)
  also have "\<dots> = signed_take_bit 3 (uint c)"
    by (simp add: signed_ucast_eq)
  also have "\<dots> = signed_take_bit 3 (sint c)"
    by (simp add: sint_uint signed_take_bit_eq_iff_take_bit_eq take_bit_signed_take_bit)
  also have "\<dots> = sint c"
    using assms by (simp add: signed_take_bit_int_eq_self)
  finally show "sint (scast (ucast c :: 4 word) :: int8) = sint c" .
qed

lemma low_nibble_byte: "low_nibble (PackedInt4_byte p) = low p"
  unfolding low_nibble_def PackedInt4_byte_def
  by (rule bit_word_eqI) (auto simp add: bit_simps)

lemma high_nibble_byte: "high_nibble (PackedInt4_byte p) = high p"
  unfolding high_nibble_def PackedInt4_byte_def
  by (rule bit_word_eqI) (auto simp add: bit_simps dest: bit_imp_le_length)

section \<open>The loops\<close>





lemma chunk_half_Some:
  assumes "8 div numBits \<noteq> 0"
  shows "\<exists>lo. chunk_half cvt numBits q data out = Some lo"
  using assms by (simp add: chunk_half_def)

lemma local_array_loop_Some:
  assumes "8 div numBits \<noteq> 0"
  shows "\<exists>st'. local_array_loop cvt numBits numChunks buf elems q eo bo stride i st = Some st'"
proof (induction "numChunks - i" arbitrary: i st)
  case 0
  then show ?case by (subst local_array_loop.simps) simp
next
  case (Suc n)
  then have n: "n = numChunks - (i + 1)" and i: "i < numChunks" by simp_all
  obtain lo where lo: "chunk_half2 cvt numBits q (\<lambda>j. buf (i * h2_per_load + j)) (fst st) = Some lo"
    using chunk_half_Some [OF assms, of cvt q "reinterpret_half (\<lambda>j. buf (i * h2_per_load + j))" "fst st"]
    by (auto simp: chunk_half2_def)
  show ?case
    using Suc.hyps(1) [OF n] i lo
    by (subst local_array_loop.simps) (simp add: Let_def)
qed


lemma local_array_params_Some:
  assumes "8 div numBits \<noteq> 0"
  obtains st' where
    "local_array_loop to_int32 numBits numChunks local_buffer elems_per_group q_params
       (int (tb_thread_index tb * h_per_load))
       (c_div (int (tb_group_index tb) * elems_per_group + int (tb_thread_index tb * h_per_load))
          (int (8 div numBits)))
       (int (tb_size tb * h_per_load div (8 div numBits))) 0 (indet_output, output_data)
     = Some st'"
    "local_array_params to_int32 numBits numChunks tb indet_output local_buffer
       global_params output_data elems_per_group q_params
     = Some (if tb_thread_index tb = 0
             then store q_params global_params (int (tb_group_index tb))
             else global_params, snd st')"
proof -
  obtain st' where st': "local_array_loop to_int32 numBits numChunks local_buffer elems_per_group
       q_params (int (tb_thread_index tb * h_per_load))
       (c_div (int (tb_group_index tb) * elems_per_group + int (tb_thread_index tb * h_per_load))
          (int (8 div numBits)))
       (int (tb_size tb * h_per_load div (8 div numBits))) 0 (indet_output, output_data)
     = Some st'"
    using local_array_loop_Some [OF assms] by blast
  then have "local_array_params to_int32 numBits numChunks tb indet_output local_buffer
       global_params output_data elems_per_group q_params
     = Some (if tb_thread_index tb = 0
             then store q_params global_params (int (tb_group_index tb))
             else global_params, snd st')"
    using assms by (simp add: local_array_params_def Let_def)
  with st' show ?thesis by (rule that)
qed

lemma serial_reduce_loop_foldl:
  "serial_reduce_loop numChunks buf i stats =
     foldl update stats (map buf [i ..< numChunks * h2_per_load])"
proof (induction "numChunks * h2_per_load - i" arbitrary: i stats)
  case 0
  then show ?case by (subst serial_reduce_loop.simps) simp
next
  case (Suc n)
  then have n: "n = numChunks * h2_per_load - (i + 1)" and i: "i < numChunks * h2_per_load"
    by simp_all
  show ?case
    using Suc.hyps(1) [OF n] i
    by (subst serial_reduce_loop.simps) (simp add: upt_conv_Cons)
qed

lemma foldl_chunks:
  "foldl (\<lambda>stats c. foldl update stats (chunk_samples buf c)) s [0 ..< n]
     = foldl update s (map buf [0 ..< n * h2_per_load])"
proof (induction n)
  case 0
  then show ?case by simp
next
  case (Suc n)
  have "[0 ..< n * h2_per_load + h2_per_load]
          = [0 ..< n * h2_per_load] @ [n * h2_per_load ..< n * h2_per_load + h2_per_load]"
    by (rule upt_add_eq_append) simp
  then have "[0 ..< Suc n * h2_per_load]
          = [0 ..< n * h2_per_load] @ [n * h2_per_load ..< (n + 1) * h2_per_load]"
    by (simp add: add.commute)
  then show ?case using Suc by (simp add: chunk_samples_def)
qed

lemma map_const_upt: "map (\<lambda>i. v) [0 ..< n] = replicate n v"
  by (induction n) (simp_all add: replicate_append_same)

lemma scan_constant:
  assumes "0 < numChunks"
  shows "local_serial_reduce Symmetric indet numChunks (\<lambda>i. (Fin c, Fin c))
           = SymStats (Fin \<bar>c\<bar>, Fin \<bar>c\<bar>) (fst indet)"
    and "local_serial_reduce IntegerSymmetric indet numChunks (\<lambda>i. (Fin c, Fin c))
           = IntSymStats (Fin \<bar>c\<bar>, Fin \<bar>c\<bar>) (fst indet)"
    and "local_serial_reduce Asymmetric indet numChunks (\<lambda>i. (Fin c, Fin c))
           = AsymStats (Fin c, Fin c) (Fin c, Fin c) (fst indet) (snd indet)"
proof -
  have keep: "foldl update (SymStats (Fin \<bar>c\<bar>, Fin \<bar>c\<bar>) u) (replicate n (Fin c, Fin c))
                = SymStats (Fin \<bar>c\<bar>, Fin \<bar>c\<bar>) u"
       "foldl update (IntSymStats (Fin \<bar>c\<bar>, Fin \<bar>c\<bar>) u) (replicate n (Fin c, Fin c))
                = IntSymStats (Fin \<bar>c\<bar>, Fin \<bar>c\<bar>) u"
       "foldl update (AsymStats (Fin c, Fin c) (Fin c, Fin c) u w) (replicate n (Fin c, Fin c))
                = AsymStats (Fin c, Fin c) (Fin c, Fin c) u w" for n u w
    by (induction n; simp add: element_Max2_def element_Min2_def element_Max_def element_Min_def
        habs2_def)+
  obtain m where m: "numChunks * h2_per_load = Suc m"
    using assms by (cases "numChunks * h2_per_load") (simp_all add: h2_per_load_def granularity_def)
  have l: "map (\<lambda>i. (Fin c, Fin c)) [0 ..< numChunks * h2_per_load]
             = (Fin c, Fin c) # replicate m (Fin c, Fin c)"
    unfolding map_const_upt m by simp
  show "local_serial_reduce Symmetric indet numChunks (\<lambda>i. (Fin c, Fin c))
           = SymStats (Fin \<bar>c\<bar>, Fin \<bar>c\<bar>) (fst indet)"
    by (simp add: local_serial_reduce_def serial_reduce_loop_foldl l keep
        init_Max2_def element_Max2_def element_Max_def habs2_def)
  show "local_serial_reduce IntegerSymmetric indet numChunks (\<lambda>i. (Fin c, Fin c))
           = IntSymStats (Fin \<bar>c\<bar>, Fin \<bar>c\<bar>) (fst indet)"
    by (simp add: local_serial_reduce_def serial_reduce_loop_foldl l keep
        init_Max2_def element_Max2_def element_Max_def habs2_def)
  show "local_serial_reduce Asymmetric indet numChunks (\<lambda>i. (Fin c, Fin c))
           = AsymStats (Fin c, Fin c) (Fin c, Fin c) (fst indet) (snd indet)"
    by (simp add: local_serial_reduce_def serial_reduce_loop_foldl l keep
        init_Max2_def init_Min2_def element_Max2_def element_Min2_def element_Max_def
        element_Min_def)
qed

lemma block_constant:
  "block_Max (replicate n (Fin c)) (Fin c) = Fin c"
  "block_Min (replicate n (Fin c)) (Fin c) = Fin c"
  by (induction n; simp add: block_Max_def block_Min_def element_Max_def element_Min_def)+

lemma reduce_constant:
  "reduce (replicate n (Fin \<bar>c\<bar>, x)) (SymStats (Fin \<bar>c\<bar>, Fin \<bar>c\<bar>) u)
     = SymStats (Fin \<bar>c\<bar>, Fin \<bar>c\<bar>) (Fin \<bar>c\<bar>)"
  "reduce (replicate n (Fin \<bar>c\<bar>, x)) (IntSymStats (Fin \<bar>c\<bar>, Fin \<bar>c\<bar>) u)
     = IntSymStats (Fin \<bar>c\<bar>, Fin \<bar>c\<bar>) (Fin \<bar>c\<bar>)"
  "reduce (replicate n (Fin c, Fin c)) (AsymStats (Fin c, Fin c) (Fin c, Fin c) u w)
     = AsymStats (Fin c, Fin c) (Fin c, Fin c) (Fin c) (Fin c)"
  by (simp_all add: block_constant element_Max_def element_Min_def Let_def)

section \<open>Degenerate groups\<close>

text \<open>
  Claim C1, as stated, fails for IntegerSymmetric. With all elements zero the finalized
  \<^verbatim>\<open>max\<close> is 0 and the constructor converts \<open>0 + 0.5\<close> to \<^verbatim>\<open>int32_t\<close>: truncation and
  rounding to nearest even both give the scale 0, not 1.
\<close>

theorem zero_group_scale_counterexample:
  "Params_new float2int_rz 8 (IntSymStats (Fin 0, Fin 0) (Fin 0)) = IntSymParams 0 \<and>
   Params_new float2int_rn 8 (IntSymStats (Fin 0, Fin 0) (Fin 0)) = IntSymParams 0 \<and>
   Params_new float2int_rz 8 (IntSymStats (Fin 0, Fin 0) (Fin 0)) \<noteq> IntSymParams 1 \<and>
   Params_new float2int_rn 8 (IntSymStats (Fin 0, Fin 0) (Fin 0)) \<noteq> IntSymParams 1 \<and>
   get_params float2int_rn 8 []
     (local_serial_reduce IntegerSymmetric (NaN, NaN) 1 (\<lambda>i. (Fin 0, Fin 0))) = IntSymParams 0"
  by (simp add: sat_int32_def trunc_real_def nearest_even_def get_params_def
      local_serial_reduce_def serial_reduce_loop_foldl h2_per_load_def granularity_def upt_rec
      init_Max2_def element_Max2_def element_Max_def habs2_def block_Max_def Let_def)

text \<open>
  Claim C1, amended: when the finalized \<^verbatim>\<open>max\<close> is 0, the Symmetric constructor sets
  the scale to exactly 1.0, for every bit width; the IntegerSymmetric constructor sets
  its integer scale to the conversion of 0.5, which is 0 under truncation and under
  rounding to nearest even. A group of zeros has the finalized \<^verbatim>\<open>max\<close> 0: the scan of
  at least one chunk of zeros, reduced with any number of threads that saw zeros too,
  yields these parameters.
\<close>

theorem zero_group_scale:
  assumes "0 < numChunks"
  shows "Params_new to_int32 numBits (SymStats cmax (Fin 0)) = SymParams (Fin 1) \<and>
         Params_new to_int32 numBits (IntSymStats cmax (Fin 0))
           = IntSymParams (to_int32 (Fin (1 / 2))) \<and>
         float2int_rz (Fin (1 / 2)) = 0 \<and> float2int_rn (Fin (1 / 2)) = 0 \<and>
         get_params to_int32 numBits (replicate n (Fin 0, x))
           (local_serial_reduce Symmetric indet numChunks (\<lambda>i. (Fin 0, Fin 0)))
           = SymParams (Fin 1) \<and>
         get_params to_int32 numBits (replicate n (Fin 0, x))
           (local_serial_reduce IntegerSymmetric indet numChunks (\<lambda>i. (Fin 0, Fin 0)))
           = IntSymParams (to_int32 (Fin (1 / 2)))"
proof -
  have s: "reduce (replicate n (Fin 0, x))
             (local_serial_reduce Symmetric indet numChunks (\<lambda>i. (Fin 0, Fin 0)))
           = SymStats (Fin 0, Fin 0) (Fin 0)"
    using scan_constant(1) [OF assms, of indet 0] reduce_constant(1) [of n 0 x "fst indet"]
    by simp
  have i: "reduce (replicate n (Fin 0, x))
             (local_serial_reduce IntegerSymmetric indet numChunks (\<lambda>i. (Fin 0, Fin 0)))
           = IntSymStats (Fin 0, Fin 0) (Fin 0)"
    using scan_constant(2) [OF assms, of indet 0] reduce_constant(2) [of n 0 x "fst indet"]
    by simp
  show ?thesis
    unfolding get_params_def Let_def s i
    by (simp add: sat_int32_def trunc_real_def nearest_even_def)
qed

theorem zero_group_scale_witness:
  "get_params float2int_rn 8 [(Fin 0, Fin 0)]
     (local_serial_reduce Symmetric (NaN, NaN) 1 (\<lambda>i. (Fin 0, Fin 0))) = SymParams (Fin 1) \<and>
   get_params float2int_rn 8 [(Fin 0, Fin 0)]
     (local_serial_reduce IntegerSymmetric (NaN, NaN) 1 (\<lambda>i. (Fin 0, Fin 0)))
     = IntSymParams 0"
proof -
  have n: "0 < (1::nat)" by simp
  have r: "replicate 1 (Fin 0, Fin 0) = [(Fin 0, Fin 0)]" by simp
  show ?thesis
    using zero_group_scale [OF n, of float2int_rn 8 "(Fin 0, Fin 0)" 1 "Fin 0" "(NaN, NaN)"]
    unfolding r by simp
qed




section \<open>Clamping\<close>




text \<open>
  Claim C10: with \<^verbatim>\<open>numBits = 4\<close> the Symmetric and the Asymmetric \<^verbatim>\<open>quantize\<close> return
  a code in \<open>[-8, 7]\<close> for every input, every scale and offset and every conversion. The
  4-bit field of \<^verbatim>\<open>PackedInt4\<close> therefore holds the code exactly: sign-extending the
  nibble of the packed byte gives the code back, for both codes of a pair.
\<close>

theorem four_bit_codes_fit:
  "- 8 \<le> sint (quantize to_int32 4 (SymParams scale) val) \<and>
   sint (quantize to_int32 4 (SymParams scale) val) \<le> 7 \<and>
   - 8 \<le> sint (quantize to_int32 4 (AsymParams scale offset) val) \<and>
   sint (quantize to_int32 4 (AsymParams scale offset) val) \<le> 7 \<and>
   scast (low_nibble (PackedInt4_byte (PackedInt4_new
       (quantize to_int32 4 (SymParams scale) val2) (quantize to_int32 4 (SymParams scale) val))))
     = quantize to_int32 4 (SymParams scale) val \<and>
   scast (high_nibble (PackedInt4_byte (PackedInt4_new
       (quantize to_int32 4 (SymParams scale) val2) (quantize to_int32 4 (SymParams scale) val))))
     = quantize to_int32 4 (SymParams scale) val2 \<and>
   scast (low_nibble (PackedInt4_byte (PackedInt4_new
       (quantize to_int32 4 (AsymParams scale offset) val2)
       (quantize to_int32 4 (AsymParams scale offset) val))))
     = quantize to_int32 4 (AsymParams scale offset) val \<and>
   scast (high_nibble (PackedInt4_byte (PackedInt4_new
       (quantize to_int32 4 (AsymParams scale offset) val2)
       (quantize to_int32 4 (AsymParams scale offset) val))))
     = quantize to_int32 4 (AsymParams scale offset) val2"
proof -
  have q: "sint (q_min 4) = - 8" "sint (q_max 4) = 7" by (simp_all add: q_min_def q_max_def)
  have r: "- 8 \<le> sint (ucast (min_i32 (max_i32 d (q_min 4)) (q_max 4)) :: int8) \<and>
        sint (ucast (min_i32 (max_i32 d (q_min 4)) (q_max 4)) :: int8) \<le> 7" for d
    using sint_cast_clamp [of 4 d] by (simp add: q)
  have s: "- 8 \<le> sint (quantize to_int32 4 (SymParams scale) v) \<and>
           sint (quantize to_int32 4 (SymParams scale) v) \<le> 7" for v
    using r by simp
  have a: "- 8 \<le> sint (quantize to_int32 4 (AsymParams scale offset) v) \<and>
           sint (quantize to_int32 4 (AsymParams scale offset) v) \<le> 7" for v
    using r by simp
  have n: "scast (low_nibble (PackedInt4_byte (PackedInt4_new c2 c1))) = c1 \<and>
           scast (high_nibble (PackedInt4_byte (PackedInt4_new c2 c1))) = c2"
    if "- 8 \<le> sint c1 \<and> sint c1 \<le> 7" "- 8 \<le> sint c2 \<and> sint c2 \<le> 7" for c1 c2 :: int8
    using that
    by (simp add: low_nibble_byte high_nibble_byte PackedInt4_new_def scast_ucast_nibble)
  show ?thesis
    using s [of val] a [of val] n [OF s [of val] s [of val2]] n [OF a [of val] a [of val2]]
    by blast
qed

section \<open>Packing\<close>



section \<open>The parameter record\<close>

text \<open>
  Claim C5: \<^verbatim>\<open>store\<close> changes the parameter buffer at the group's record only. Symmetric
  writes the float \<open>1 / scale\<close> at index \<open>group_index\<close>, IntegerSymmetric the
  \<^verbatim>\<open>int32_t\<close> scale itself at index \<open>group_index\<close>, Asymmetric the float \<open>1 / scale\<close> at
  index \<open>2 * group_index\<close> and the offset at \<open>2 * group_index + 1\<close>. In \<^verbatim>\<open>local_array\<close>
  the thread with index 0 calls \<^verbatim>\<open>store\<close> once, with the block's group index, and no
  other thread writes the buffer.
\<close>

theorem store_record:
  "store (SymParams scale) params g =
     (\<lambda>k. if k = g then FloatBits (fdiv (Fin 1) scale) else params k) \<and>
   store (IntSymParams int_scale) params g =
     (\<lambda>k. if k = g then Int32Bits int_scale else params k) \<and>
   store (AsymParams scale offset) params g =
     (\<lambda>k. if k = 2 * g then FloatBits (fdiv (Fin 1) scale)
          else if k = 2 * g + 1 then FloatBits offset else params k) \<and>
   (0 < numBits \<and> numBits \<le> 8 \<longrightarrow>
      map_option fst
        (local_array_params to_int32 numBits numChunks tb indet_output local_buffer
           global_params output_data elems_per_group q_params)
      = Some (if tb_thread_index tb = 0
              then store q_params global_params (int (tb_group_index tb))
              else global_params))"
proof -
  have "map_option fst
        (local_array_params to_int32 numBits numChunks tb indet_output local_buffer
           global_params output_data elems_per_group q_params)
      = Some (if tb_thread_index tb = 0
              then store q_params global_params (int (tb_group_index tb))
              else global_params)"
    if "0 < numBits \<and> numBits \<le> 8"
  proof -
    have nz: "8 div numBits \<noteq> 0" using that by (simp add: div_eq_0_iff)
    show ?thesis
      by (rule local_array_params_Some [OF nz, of to_int32 numChunks local_buffer
            elems_per_group q_params tb indet_output output_data global_params]) simp
  qed
  then show ?thesis by (auto simp: fun_eq_iff Let_def)
qed

theorem store_record_witness:
  "map_option fst
     (local_array_params float2int_rn 8 1
        \<lparr>tb_group_index = 3, tb_thread_index = 0, tb_size = 2\<rparr> (\<lambda>k. 0) (\<lambda>j. (Fin 0, Fin 4))
        (\<lambda>k. FloatBits (Fin 0)) (\<lambda>k. 0) 16 (AsymParams (Fin 64) (Fin (- 128))))
   = Some (\<lambda>k. if k = 6 then FloatBits (Fin (1 / 64))
               else if k = 7 then FloatBits (Fin (- 128)) else FloatBits (Fin 0)) \<and>
   map_option fst
     (local_array_params float2int_rn 8 1
        \<lparr>tb_group_index = 3, tb_thread_index = 1, tb_size = 2\<rparr> (\<lambda>k. 0) (\<lambda>j. (Fin 0, Fin 4))
        (\<lambda>k. FloatBits (Fin 0)) (\<lambda>k. 0) 16 (AsymParams (Fin 64) (Fin (- 128))))
   = Some (\<lambda>k. FloatBits (Fin 0))"
proof -
  let ?t0 = "\<lparr>tb_group_index = 3, tb_thread_index = 0, tb_size = 2\<rparr>"
  let ?t1 = "\<lparr>tb_group_index = 3, tb_thread_index = 1, tb_size = 2\<rparr>"
  let ?q = "AsymParams (Fin 64) (Fin (- 128))"
  let ?g = "\<lambda>k :: int. FloatBits (Fin 0)"
  have n: "0 < (8::nat) \<and> (8::nat) \<le> 8" by simp
  have r0: "map_option fst
     (local_array_params float2int_rn 8 1 ?t0 (\<lambda>k. 0) (\<lambda>j. (Fin 0, Fin 4)) ?g (\<lambda>k. 0) 16 ?q)
     = Some (if tb_thread_index ?t0 = 0 then store ?q ?g (int (tb_group_index ?t0)) else ?g)"
    using n store_record [where numBits = 8 and ?to_int32.0 = float2int_rn and numChunks = 1
      and tb = ?t0 and indet_output = "\<lambda>k. 0" and local_buffer = "\<lambda>j. (Fin 0, Fin 4)"
      and global_params = ?g and output_data = "\<lambda>k. 0" and elems_per_group = 16
      and q_params = ?q]
    by blast
  have r1: "map_option fst
     (local_array_params float2int_rn 8 1 ?t1 (\<lambda>k. 0) (\<lambda>j. (Fin 0, Fin 4)) ?g (\<lambda>k. 0) 16 ?q)
     = Some (if tb_thread_index ?t1 = 0 then store ?q ?g (int (tb_group_index ?t1)) else ?g)"
    using n store_record [where numBits = 8 and ?to_int32.0 = float2int_rn and numChunks = 1
      and tb = ?t1 and indet_output = "\<lambda>k. 0" and local_buffer = "\<lambda>j. (Fin 0, Fin 4)"
      and global_params = ?g and output_data = "\<lambda>k. 0" and elems_per_group = 16
      and q_params = ?q]
    by blast
  have e0: "(if tb_thread_index ?t0 = 0 then store ?q ?g (int (tb_group_index ?t0)) else ?g)
      = (\<lambda>k. if k = 6 then FloatBits (Fin (1 / 64))
             else if k = 7 then FloatBits (Fin (- 128)) else FloatBits (Fin 0))"
    by (simp add: fun_eq_iff)
  have e1: "(if tb_thread_index ?t1 = 0 then store ?q ?g (int (tb_group_index ?t1)) else ?g)
      = ?g"
    by simp
  show ?thesis
    unfolding r0 r1 e0 e1 by (rule conjI; rule refl)
qed

section \<open>End-to-end scenarios\<close>

text \<open>
  Claim C6: the 8-bit Symmetric group \<open>[1.0, -2.0, 0.5, -0.25]\<close>. Two updates and the
  reduction give \<^verbatim>\<open>max\<close> \<open>= 2.0\<close>, the constructor gives the scale \<open>256 / (2 * 2.0) = 64\<close>,
  \<^verbatim>\<open>store\<close> writes \<open>1 / 64 = 0.015625\<close>, and the codes are 64, -128, 32 and -16. The
  second element is converted to -128, which is \<^verbatim>\<open>q_min\<close> already. The scan of
  \<^verbatim>\<open>local_array\<close> over the zero-padded chunk derives the same parameters.
\<close>

theorem symmetric_scenario:
  assumes "rounds_to_int32 to_int32"
  shows "reduce [] (update (update (GroupStats_new Symmetric indet) (Fin 1, Fin (- 2)))
                      (Fin (1 / 2), Fin (- (1 / 4))))
           = SymStats (Fin 1, Fin 2) (Fin 2) \<and>
         Params_new to_int32 8 (SymStats (Fin 1, Fin 2) (Fin 2)) = SymParams (Fin 64) \<and>
         store (SymParams (Fin 64)) params g g = FloatBits (Fin (1 / 64)) \<and>
         (1 / 64 :: real) = 0.015625 \<and>
         map (\<lambda>v. sint (quantize to_int32 8 (SymParams (Fin 64)) (Fin v)))
             [1, - 2, 1 / 2, - (1 / 4)] = [64, - 128, 32, - 16] \<and>
         sint (to_int32 (fmul (Fin (- 2)) (Fin 64))) = - 128 \<and>
         get_params to_int32 8 [] (local_serial_reduce Symmetric indet 1 scenario_symmetric)
           = SymParams (Fin 64)"
proof -
  have s: "reduce [] (update (update (GroupStats_new Symmetric indet) (Fin 1, Fin (- 2)))
                      (Fin (1 / 2), Fin (- (1 / 4))))
           = SymStats (Fin 1, Fin 2) (Fin 2)"
    by (simp add: init_Max2_def element_Max2_def element_Max_def habs2_def block_Max_def)
  have p: "Params_new to_int32 8 (SymStats (Fin 1, Fin 2) (Fin 2)) = SymParams (Fin 64)"
    by simp
  have t: "store (SymParams (Fin 64)) params g g = FloatBits (Fin (1 / 64))"
    by simp
  have q: "sint (quantize to_int32 8 (SymParams (Fin 64)) (Fin v)) = n"
    if "v * 64 = real_of_int n" "- 128 \<le> n" "n \<le> 127" for v n
  proof -
    have "fl32 (real_of_int n) = Fin (real_of_int n)"
      using that by (intro fl32_int) simp
    then show ?thesis
      using clamp_exact [OF assms, of 8 n] that by simp
  qed
  have c: "sint (quantize to_int32 8 (SymParams (Fin 64)) (Fin 1)) = 64"
      "sint (quantize to_int32 8 (SymParams (Fin 64)) (Fin (- 2))) = - 128"
      "sint (quantize to_int32 8 (SymParams (Fin 64)) (Fin (1 / 2))) = 32"
      "sint (quantize to_int32 8 (SymParams (Fin 64)) (Fin (- (1 / 4)))) = - 16"
    by (rule q; simp)+
  have r: "sint (to_int32 (fmul (Fin (- 2)) (Fin 64))) = - 128"
    using rounds_exact [OF assms, of "- 128"] by simp
  have l: "get_params to_int32 8 [] (local_serial_reduce Symmetric indet 1 scenario_symmetric)
           = SymParams (Fin 64)"
    by (simp add: get_params_def local_serial_reduce_def serial_reduce_loop_foldl
        h2_per_load_def granularity_def upt_rec scenario_symmetric_def init_Max2_def
        element_Max2_def element_Max_def habs2_def block_Max_def Let_def)
  show ?thesis
    unfolding s p t l using c r by simp
qed

theorem symmetric_scenario_witness:
  "reduce [] (update (update (GroupStats_new Symmetric (Fin 0, Fin 0)) (Fin 1, Fin (- 2)))
                      (Fin (1 / 2), Fin (- (1 / 4))))
           = SymStats (Fin 1, Fin 2) (Fin 2) \<and>
   Params_new float2int_rn 8 (SymStats (Fin 1, Fin 2) (Fin 2)) = SymParams (Fin 64) \<and>
   store (SymParams (Fin 64)) (\<lambda>k. FloatBits (Fin 0)) 0 0 = FloatBits (Fin (1 / 64)) \<and>
   map (\<lambda>v. sint (quantize float2int_rn 8 (SymParams (Fin 64)) (Fin v)))
       [1, - 2, 1 / 2, - (1 / 4)] = [64, - 128, 32, - 16]"
  using symmetric_scenario [OF rounds_float2int_rn, of "(Fin 0, Fin 0)"
      "\<lambda>k. FloatBits (Fin 0)" 0]
  by simp

text \<open>
  Claim C7: the 8-bit Asymmetric group \<open>[0.0, 4.0]\<close>. One update and the reduction give
  \<^verbatim>\<open>max\<close> \<open>= 4.0\<close> and \<^verbatim>\<open>min\<close> \<open>= 0.0\<close>, the constructor gives the scale \<open>256 / 4 = 64\<close> and
  the offset \<open>-128 - 0 * 64 = -128\<close>; 0.0 quantizes to -128, and 4.0 is transformed to
  \<open>4 * 64 - 128 = 128\<close>, converted to 128 and clamped to 127. The scan of
  \<^verbatim>\<open>local_array\<close> over the zero-padded chunk derives the same parameters.
\<close>

theorem asymmetric_scenario:
  assumes "rounds_to_int32 to_int32"
  shows "reduce [] (update (GroupStats_new Asymmetric indet) (Fin 0, Fin 4))
           = AsymStats (Fin 0, Fin 4) (Fin 0, Fin 4) (Fin 4) (Fin 0) \<and>
         Params_new to_int32 8 (AsymStats (Fin 0, Fin 4) (Fin 0, Fin 4) (Fin 4) (Fin 0))
           = AsymParams (Fin 64) (Fin (- 128)) \<and>
         sint (quantize to_int32 8 (AsymParams (Fin 64) (Fin (- 128))) (Fin 0)) = - 128 \<and>
         fadd (fmul (Fin 4) (Fin 64)) (Fin (- 128)) = Fin 128 \<and>
         sint (to_int32 (Fin 128)) = 128 \<and>
         sint (quantize to_int32 8 (AsymParams (Fin 64) (Fin (- 128))) (Fin 4)) = 127 \<and>
         get_params to_int32 8 [] (local_serial_reduce Asymmetric indet 1 scenario_asymmetric)
           = AsymParams (Fin 64) (Fin (- 128))"
proof -
  have s: "reduce [] (update (GroupStats_new Asymmetric indet) (Fin 0, Fin 4))
           = AsymStats (Fin 0, Fin 4) (Fin 0, Fin 4) (Fin 4) (Fin 0)"
    by (simp add: init_Max2_def init_Min2_def element_Max2_def element_Min2_def
        element_Max_def element_Min_def block_Max_def block_Min_def Let_def)
  have p: "Params_new to_int32 8 (AsymStats (Fin 0, Fin 4) (Fin 0, Fin 4) (Fin 4) (Fin 0))
           = AsymParams (Fin 64) (Fin (- 128))"
    by (simp add: fsub_def)
  have a: "sint (quantize to_int32 8 (AsymParams (Fin 64) (Fin (- 128))) (Fin 0)) = - 128"
    using clamp_exact [OF assms, of 8 "- 128"] by simp
  have b: "sint (to_int32 (Fin 128)) = 128"
    using rounds_exact [OF assms, of 128] by simp
  have c: "sint (quantize to_int32 8 (AsymParams (Fin 64) (Fin (- 128))) (Fin 4)) = 127"
    using clamp_above [OF assms, of 8 128] by simp
  have l: "get_params to_int32 8 [] (local_serial_reduce Asymmetric indet 1 scenario_asymmetric)
           = AsymParams (Fin 64) (Fin (- 128))"
    by (simp add: get_params_def local_serial_reduce_def serial_reduce_loop_foldl
        h2_per_load_def granularity_def upt_rec scenario_asymmetric_def init_Max2_def
        init_Min2_def element_Max2_def element_Min2_def element_Max_def element_Min_def
        block_Max_def block_Min_def fsub_def Let_def)
  show ?thesis
    unfolding s p l using a b c by simp
qed

theorem asymmetric_scenario_witness:
  "reduce [] (update (GroupStats_new Asymmetric (Fin 0, Fin 0)) (Fin 0, Fin 4))
           = AsymStats (Fin 0, Fin 4) (Fin 0, Fin 4) (Fin 4) (Fin 0) \<and>
   Params_new float2int_rn 8 (AsymStats (Fin 0, Fin 4) (Fin 0, Fin 4) (Fin 4) (Fin 0))
           = AsymParams (Fin 64) (Fin (- 128)) \<and>
   sint (quantize float2int_rn 8 (AsymParams (Fin 64) (Fin (- 128))) (Fin 0)) = - 128 \<and>
   sint (quantize float2int_rn 8 (AsymParams (Fin 64) (Fin (- 128))) (Fin 4)) = 127"
  using asymmetric_scenario [OF rounds_float2int_rn, of "(Fin 0, Fin 0)"]
  by simp

section \<open>Partial groups\<close>




section \<open>The compute-parameters path\<close>

text \<open>
  Claim C9: \<^verbatim>\<open>local_array\<close> without parameters equals the composition the
  specification describes: the serial scan over the chunks in index order, one
  reduction, one construction of the parameters, then the packing pass of the
  precomputed-parameters \<^verbatim>\<open>local_array\<close> on the same buffer. Packed output and
  parameter record are those of the composition, also where it does not return.
\<close>

theorem compute_path_refines:
  "local_array to_int32 qType numBits numChunks tb peers indet indet_output local_buffer
       global_params output_data elems_per_group
   = spec_local_array to_int32 qType numBits numChunks tb peers indet indet_output local_buffer
       global_params output_data elems_per_group"
  by (simp add: local_array_def spec_local_array_def get_params_def local_serial_reduce_def
      spec_scan_def serial_reduce_loop_foldl foldl_chunks Let_def)

end
